theory Spec2Isabelle
  imports Main "HOL-Library.Word" "HOL-Library.Sublist"
begin

section \<open>JavaScript strings\<close>

text \<open>
  A JavaScript string is a sequence of UTF-16 code units; \<open>length\<close>, \<open>substring\<close>,
  \<open>split\<close> and \<open>trim\<close> all count and compare code units. String literals of the source
  are written \<open>str ''...''\<close>.
\<close>

type_synonym code_unit = "16 word"

type_synonym jsstring = "code_unit list"

definition str :: "string \<Rightarrow> jsstring" where
  "str s = map (\<lambda>c. of_nat (of_char c)) s"

definition nl :: jsstring where
  "nl = [0x0A]"

definition sp :: "nat \<Rightarrow> jsstring" where
  "sp n = replicate n 0x20"

text \<open>
  \<open>String.prototype.substring(start, end)\<close> for non-negative integer arguments: both are
  clamped to the length and swapped when \<open>start > end\<close>.
\<close>

definition substring :: "jsstring \<Rightarrow> nat \<Rightarrow> nat \<Rightarrow> jsstring" where
  "substring s start end' =
     (let a = min start (length s); b = min end' (length s);
          lo = min a b; hi = max a b
      in take (hi - lo) (drop lo s))"

text \<open>
  The code units \<open>String.prototype.trim\<close> strips: ECMAScript WhiteSpace and
  LineTerminator.
\<close>

definition isWhiteSpace :: "code_unit \<Rightarrow> bool" where
  "isWhiteSpace c =
     (c \<in> set [0x09, 0x0A, 0x0B, 0x0C, 0x0D, 0x20, 0xA0, 0x1680, 0x2028, 0x2029,
               0x202F, 0x205F, 0x3000, 0xFEFF]
      \<or> (0x2000 \<le> c \<and> c \<le> 0x200A))"

definition trim :: "jsstring \<Rightarrow> jsstring" where
  "trim s = rev (dropWhile isWhiteSpace (rev (dropWhile isWhiteSpace s)))"

text \<open>
  \<open>String.prototype.split(separator)\<close> with a string separator and no limit. The scan goes
  left to right; \<open>acc\<close> is the piece being collected. An empty separator splits into
  single code units.
\<close>

function split_from :: "jsstring \<Rightarrow> jsstring \<Rightarrow> jsstring \<Rightarrow> jsstring list" where
  "split_from sep acc [] = [acc]"
| "split_from sep acc (c # cs) =
     (if sep \<noteq> [] \<and> prefix sep (c # cs)
      then acc # split_from sep [] (drop (length sep) (c # cs))
      else split_from sep (acc @ [c]) cs)"
  by pat_completeness auto
termination
  by (relation "measure (\<lambda>(sep, acc, s). length s)") auto

definition split :: "jsstring \<Rightarrow> jsstring \<Rightarrow> jsstring list" where
  "split s sep = (if sep = [] then map (\<lambda>c. [c]) s else split_from sep [] s)"

text \<open>\<open>Array.prototype.join(separator)\<close> on an array of strings.\<close>

fun join :: "jsstring list \<Rightarrow> jsstring \<Rightarrow> jsstring" where
  "join [] sep = []"
| "join [x] sep = x"
| "join (x # y # ys) sep = x @ sep @ join (y # ys) sep"

text \<open>The decimal digits of a natural number.\<close>

function digits :: "nat \<Rightarrow> jsstring" where
  "digits n = (if n < 10 then [of_nat (48 + n)] else digits (n div 10) @ [of_nat (48 + n mod 10)])"
  by pat_completeness auto
termination
  by (relation "measure id") auto

text \<open>
  What the renderer takes from the browser and does not compute itself:
  \<open>String.prototype.toUpperCase\<close>, the \<open>en-US\<close> short date produced by
  \<open>formatDate\<close> through \<open>Date.prototype.toLocaleDateString\<close>, and the exponent
  notation in which a number of magnitude \<open>1e21\<close> or more is printed.
\<close>

record platform =
  toUpperCase :: "jsstring \<Rightarrow> jsstring"
  formatDate :: "jsstring \<Rightarrow> jsstring"
  exponentNotation :: "int \<Rightarrow> jsstring"

text \<open>
  Number-to-string conversion for integer-valued numbers: below \<open>1e21\<close> in magnitude the
  decimal digits, with a minus sign for negatives; from \<open>1e21\<close> on the platform's
  exponent notation.
\<close>

definition number_toString :: "platform \<Rightarrow> int \<Rightarrow> jsstring" where
  "number_toString p n =
     (if \<bar>n\<bar> < 10 ^ 21
      then (if n < 0 then str ''-'' @ digits (nat (- n)) else digits (nat n))
      else exponentNotation p n)"

section \<open>Escaping through a text node\<close>

text \<open>
  \<open>escapeHtml(text)\<close> creates a detached \<open>div\<close>, assigns \<open>text\<close> to its \<open>textContent\<close>
  and reads \<open>innerHTML\<close> back. The HTML fragment serialisation of a text node replaces
  \<open>&\<close>, U+00A0, \<open><\<close> and \<open>>\<close> and leaves every other code unit (quotes included) as
  it is.
\<close>

definition escape_unit :: "code_unit \<Rightarrow> jsstring" where
  "escape_unit c =
     (if c = 0x26 then str ''&amp;''
      else if c = 0xA0 then str ''&nbsp;''
      else if c = 0x3C then str ''&lt;''
      else if c = 0x3E then str ''&gt;''
      else [c])"

definition escapeHtml :: "jsstring \<Rightarrow> jsstring" where
  "escapeHtml text = concat (map escape_unit text)"

section \<open>Content items\<close>

record tag =
  tag_id :: int
  name :: jsstring

text \<open>\<open>tags\<close> is \<open>None\<close> when the item carries no \<open>tags\<close> property.\<close>

record item =
  item_id :: int
  title :: jsstring
  content :: jsstring
  content_type :: jsstring
  word_count :: int
  explicit_content :: bool
  file_timestamp :: jsstring
  tags :: "tag list option"

subsection \<open>Cards\<close>

text \<open>The \<open>excerpt\<close> constant of \<open>createContentCard\<close> and of \<open>ContentCard.create\<close>.\<close>

definition excerpt :: "jsstring \<Rightarrow> jsstring" where
  "excerpt body = substring body 0 150 @ (if length body > 150 then str ''...'' else [])"

text \<open>
  A card element: its class, the markup assigned to \<open>innerHTML\<close>, and the item its
  click listener opens (\<open>None\<close> when no listener is attached).
\<close>

record card =
  className :: jsstring
  innerHTML :: jsstring
  click :: "item option"

text \<open>
  The template literal shared by both card builders, as its literal chunks and
  interpolated values in order; \<open>tagsHtml\<close> is the value of the last interpolation, which
  is where the two differ.
\<close>

definition card_parts :: "platform \<Rightarrow> item \<Rightarrow> jsstring \<Rightarrow> jsstring list" where
  "card_parts p item tagsHtml =
     [nl, sp 12, str ''<div class=\"card-header\">'',
      nl, sp 16, str ''<h3 class=\"card-title\">'', escapeHtml (title item), str ''</h3>'',
      nl, sp 16, str ''<div class=\"card-meta\">'',
      nl, sp 20, str ''<span class=\"content-type\">'', toUpperCase p (content_type item),
                 str ''</span>'',
      nl, sp 20, (if explicit_content item then str ''<span class=\"explicit-badge\">18+</span>''
                  else []),
      nl, sp 20, str ''<span>'', number_toString p (word_count item), str '' words</span>'',
      nl, sp 20, str ''<span>'', formatDate p (file_timestamp item), str ''</span>'',
      nl, sp 16, str ''</div>'',
      nl, sp 12, str ''</div>'',
      nl, sp 12, str ''<div class=\"card-excerpt\">'', escapeHtml (excerpt (content item)),
                 str ''</div>'',
      nl, sp 12, tagsHtml,
      nl, sp 8]"

definition card_template :: "platform \<Rightarrow> item \<Rightarrow> jsstring \<Rightarrow> jsstring" where
  "card_template p item tagsHtml = concat (card_parts p item tagsHtml)"

definition card_tags :: "tag list \<Rightarrow> jsstring" where
  "card_tags ts =
     str ''<div class=\"card-tags\">''
     @ join (map (\<lambda>tag. str ''<span class=\"tag\">'' @ escapeHtml (name tag) @ str ''</span>'') ts) []
     @ str ''</div>''"

text \<open>\<open>MusingsApp.createContentCard\<close>: the tag block is present whenever \<open>item.tags\<close> is.\<close>

definition createContentCard :: "platform \<Rightarrow> item \<Rightarrow> card" where
  "createContentCard p item =
     \<lparr> className = str ''content-card'',
       innerHTML = card_template p item
         (case tags item of Some ts \<Rightarrow> card_tags ts | None \<Rightarrow> []),
       click = Some item \<rparr>"

text \<open>\<open>ContentCard.create\<close>: the tag block needs a non-empty array; no listener.\<close>

definition ContentCard_create :: "platform \<Rightarrow> item \<Rightarrow> card" where
  "ContentCard_create p item =
     \<lparr> className = str ''content-card'',
       innerHTML = card_template p item
         (case tags item of
            Some ts \<Rightarrow> if length ts > 0 then card_tags ts else []
          | None \<Rightarrow> []),
       click = None \<rparr>"

subsection \<open>Full view\<close>

text \<open>
  \<open>formatContentForDisplay(content, type)\<close>, the same text in \<open>MusingsApp\<close> and in
  \<open>ContentViewer\<close>. The \<open>switch\<close> compares with strict equality.
\<close>

definition formatContentForDisplay :: "jsstring \<Rightarrow> jsstring \<Rightarrow> jsstring" where
  "formatContentForDisplay body type' =
     (if type' = str ''poetry'' then
        join (map (\<lambda>line. if trim line \<noteq> []
                           then str ''<p>'' @ escapeHtml line @ str ''</p>''
                           else str ''<p>&nbsp;</p>'')
                  (split body nl)) []
      else if type' = str ''dialogue'' then
        join (map (\<lambda>paragraph. str ''<p>'' @ escapeHtml paragraph @ str ''</p>'')
                  (split body (nl @ nl))) []
      else
        join (map (\<lambda>paragraph. str ''<p>'' @ escapeHtml (trim paragraph) @ str ''</p>'')
                  (split body (nl @ nl))) [])"

text \<open>
  The template literal assigned to \<open>contentDisplay.innerHTML\<close>, as its literal chunks and
  interpolated values in order. \<open>bullet\<close> is the separator of the metadata line as it
  stands in each file.
\<close>

definition fullView_parts :: "platform \<Rightarrow> jsstring \<Rightarrow> item \<Rightarrow> jsstring list" where
  "fullView_parts p bullet item =
     [nl, sp 12, str ''<h1 class=\"content-title\">'', escapeHtml (title item), str ''</h1>'',
      nl, sp 12, str ''<div class=\"content-meta\">'',
      nl, sp 16, str ''<span>'', toUpperCase p (content_type item), str '' '', bullet, str '' '',
                 number_toString p (word_count item), str '' words '', bullet, str '' '',
                 formatDate p (file_timestamp item), str ''</span><br>'',
      nl, sp 16, (case tags item of
                    Some ts \<Rightarrow>
                      if length ts > 0
                      then str ''<span>Tags: '' @ join (map (\<lambda>tag. name tag) ts) (str '', '')
                           @ str ''</span>''
                      else []
                  | None \<Rightarrow> []),
      nl, sp 12, str ''</div>'',
      nl, sp 12, str ''<div class=\"content-text\">'',
                 formatContentForDisplay (content item) (content_type item), str ''</div>'',
      nl, sp 8]"

definition fullView_template :: "platform \<Rightarrow> jsstring \<Rightarrow> item \<Rightarrow> jsstring" where
  "fullView_template p bullet item = concat (fullView_parts p bullet item)"

text \<open>The metadata separator in \<open>main.js\<close> (three code units) and in \<open>contentViewer.js\<close>.\<close>

definition bullet_main :: jsstring where
  "bullet_main = [0xE2, 0x20AC, 0xA2]"

definition bullet_viewer :: jsstring where
  "bullet_viewer = [0x2022]"

subsection \<open>The formatting rules as the specification words them\<close>

text \<open>
  A paragraph wraps the escaped text in \<open><p>\<close>; a line is blank when it holds nothing but
  white space. Poetry: one paragraph per line, a blank line becoming the non-breaking-space
  paragraph. Dialogue: one paragraph per piece between double newlines, untrimmed. Every
  other type: one paragraph per piece between double newlines, trimmed.
\<close>

definition wrap_paragraph :: "jsstring \<Rightarrow> jsstring" where
  "wrap_paragraph s = str ''<p>'' @ escapeHtml s @ str ''</p>''"

definition blank :: "jsstring \<Rightarrow> bool" where
  "blank line = list_all isWhiteSpace line"

definition formatting_rule :: "jsstring \<Rightarrow> jsstring \<Rightarrow> jsstring" where
  "formatting_rule type' body =
     (if type' = str ''poetry'' then
        concat (map (\<lambda>line. if blank line then str ''<p>&nbsp;</p>'' else wrap_paragraph line)
                    (split body nl))
      else if type' = str ''dialogue'' then
        concat (map wrap_paragraph (split body (nl @ nl)))
      else
        concat (map (\<lambda>paragraph. wrap_paragraph (trim paragraph)) (split body (nl @ nl))))"

section \<open>Values decoded from JSON\<close>

datatype jsval =
    Undefined
  | Null
  | Bool bool
  | Num int
  | Str jsstring
  | Arr "jsval list"
  | Obj "(jsstring \<times> jsval) list"

datatype error =
    TypeError
  | AbortError
  | SyntaxError
  | APIError jsstring nat jsval

text \<open>
  Reading a property that no built-in prototype defines (the source reads \<open>tags\<close> and
  \<open>name\<close>): an object gives its own property or \<open>undefined\<close>, every other value
  gives \<open>undefined\<close>, and \<open>null\<close> and \<open>undefined\<close> throw.
\<close>

fun get_property :: "jsval \<Rightarrow> jsstring \<Rightarrow> error + jsval" where
  "get_property Undefined k = Inl TypeError"
| "get_property Null k = Inl TypeError"
| "get_property (Obj kvs) k = Inr (case map_of kvs k of Some v \<Rightarrow> v | None \<Rightarrow> Undefined)"
| "get_property v k = Inr Undefined"

fun truthy :: "jsval \<Rightarrow> bool" where
  "truthy Undefined = False"
| "truthy Null = False"
| "truthy (Bool b) = b"
| "truthy (Num n) = (n \<noteq> 0)"
| "truthy (Str s) = (s \<noteq> [])"
| "truthy (Arr xs) = True"
| "truthy (Obj kvs) = True"

text \<open>
  \<open>ToString\<close>. An array joins its elements with commas, \<open>null\<close> and \<open>undefined\<close>
  elements giving the empty string. An object inherits \<open>Object.prototype.toString\<close>
  unless it has an own property \<open>toString\<close>; a value decoded from JSON is never callable,
  so with such a property the conversion throws. \<open>toString_elements\<close> converts the
  elements of an array from left to right and stops at the first that throws.
\<close>

fun toString :: "platform \<Rightarrow> jsval \<Rightarrow> error + jsstring"
  and toString_elements :: "platform \<Rightarrow> jsval list \<Rightarrow> error + jsstring list" where
  "toString p Undefined = Inr (str ''undefined'')"
| "toString p Null = Inr (str ''null'')"
| "toString p (Bool b) = Inr (if b then str ''true'' else str ''false'')"
| "toString p (Num n) = Inr (number_toString p n)"
| "toString p (Str s) = Inr s"
| "toString p (Arr xs) =
     (case toString_elements p xs of
        Inl e \<Rightarrow> Inl e
      | Inr ss \<Rightarrow> Inr (join ss (str '','')))"
| "toString p (Obj kvs) =
     (case map_of kvs (str ''toString'') of
        Some v \<Rightarrow> Inl TypeError
      | None \<Rightarrow> Inr (str ''[object Object]''))"
| "toString_elements p [] = Inr []"
| "toString_elements p (x # xs) =
     (case (if x = Undefined \<or> x = Null then Inr [] else toString p x) of
        Inl e \<Rightarrow> Inl e
      | Inr s \<Rightarrow>
          (case toString_elements p xs of
             Inl e \<Rightarrow> Inl e
           | Inr ss \<Rightarrow> Inr (s # ss)))"

text \<open>
  \<open>escapeHtml\<close> on a value that need not be a string: assigning \<open>null\<close> or
  \<open>undefined\<close> to \<open>textContent\<close> gives the empty text, anything else is converted with
  \<open>ToString\<close>, which can throw.
\<close>

definition escapeHtml_value :: "platform \<Rightarrow> jsval \<Rightarrow> error + jsstring" where
  "escapeHtml_value p v =
     (if v = Undefined \<or> v = Null then Inr (escapeHtml [])
      else (case toString p v of Inl e \<Rightarrow> Inl e | Inr s \<Rightarrow> Inr (escapeHtml s)))"

section \<open>The application object and its document\<close>

text \<open>The quick-search panel \<open>#searchResults\<close>: its markup and whether it has class \<open>hidden\<close>.\<close>

record panel =
  panel_innerHTML :: jsstring
  hidden :: bool

datatype callback = SearchDebounce jsstring | BlurHide

record timer =
  handle :: nat
  due :: nat
  callback :: callback

datatype api_call =
    GetStatistics
  | GetWritings nat bool
  | GetTags
  | Search jsstring nat bool

text \<open>
  The fields of \<open>MusingsApp\<close>, then the parts of the document and of the browser it reads
  and writes. An element the document may lack is an option (\<open>getElementById\<close> returning
  \<open>null\<close>). \<open>clock\<close> is in milliseconds; \<open>timers\<close> are the pending \<open>setTimeout\<close>
  callbacks; \<open>api_calls\<close> are the requests issued so far, in order.
\<close>

record app =
  currentPage :: jsstring
  explicitContentEnabled :: bool
  currentContent :: "item option"
  searchTimeout :: "nat option"
  recentContent :: "card list option"
  browseContent :: "card list option"
  contentDisplay :: "jsstring option"
  tagCloud :: "jsstring option"
  searchResults :: "panel option"
  contentWarning :: "bool option"
  warningContentType :: "jsstring option"
  navLinks :: "jsstring list"
  activeLinks :: "jsstring list"
  pages :: "jsstring list"
  activePages :: "jsstring list"
  searchInput :: jsstring
  clock :: nat
  timers :: "timer list"
  next_handle :: nat
  api_calls :: "api_call list"

subsection \<open>Gated views\<close>

text \<open>
  \<open>displayRecentContent(content)\<close>: the container is emptied, then \<open>forEach\<close> appends a
  card per item, returning early for an explicit item while the gate is off.
\<close>

definition displayRecentContent :: "platform \<Rightarrow> app \<Rightarrow> item list \<Rightarrow> app" where
  "displayRecentContent p s items =
     (case recentContent s of
        None \<Rightarrow> s
      | Some old \<Rightarrow>
          s\<lparr>recentContent := Some
            (fold (\<lambda>item container.
                     if \<not> explicitContentEnabled s \<and> explicit_content item then container
                     else container @ [createContentCard p item])
                  items [])\<rparr>)"

text \<open>\<open>displayBrowseContent(content)\<close>: the same loop with no test.\<close>

definition displayBrowseContent :: "platform \<Rightarrow> app \<Rightarrow> item list \<Rightarrow> app" where
  "displayBrowseContent p s items =
     (case browseContent s of
        None \<Rightarrow> s
      | Some old \<Rightarrow>
          s\<lparr>browseContent := Some
            (fold (\<lambda>item container. container @ [createContentCard p item]) items [])\<rparr>)"

text \<open>
  \<open>loadBrowseContent\<close> up to its \<open>await\<close> (the request is issued with the gate as the
  \<open>explicit\<close> parameter), and from the \<open>await\<close> on, given what \<open>API.getWritings\<close>
  settled with (\<open>Inr items\<close> is \<open>content.items\<close>).
\<close>

definition loadBrowseContent :: "app \<Rightarrow> app" where
  "loadBrowseContent s =
     s\<lparr>api_calls := api_calls s @ [GetWritings 1000 (explicitContentEnabled s)]\<rparr>"

definition loadBrowseContent_then :: "platform \<Rightarrow> app \<Rightarrow> error + item list \<Rightarrow> app" where
  "loadBrowseContent_then p s api =
     (case api of Inl e \<Rightarrow> s | Inr items \<Rightarrow> displayBrowseContent p s items)"

subsection \<open>Navigation and the content viewer\<close>

text \<open>
  \<open>navigateToPage(page)\<close> up to its first \<open>await\<close>. A page without a navigation link
  makes \<open>querySelector\<close> return \<open>null\<close>, and the function rejects after the links were
  deactivated. \<open>loadTagExplorer\<close> and \<open>loadAnalytics\<close> are not defined by the class, so
  those two cases reject as well.
\<close>

definition navigateToPage :: "app \<Rightarrow> jsstring \<Rightarrow> app" where
  "navigateToPage s page =
     (if page \<notin> set (navLinks s) then s\<lparr>activeLinks := []\<rparr>
      else
        let s1 = s\<lparr>activeLinks := [page], activePages := []\<rparr> in
        if page \<in> set (pages s) then
          let s2 = s1\<lparr>activePages := [page], currentPage := page\<rparr> in
          if page = str ''dashboard'' then s2\<lparr>api_calls := api_calls s2 @ [GetStatistics]\<rparr>
          else if page = str ''browse'' then loadBrowseContent s2
          else s2
        else s1)"

text \<open>
  \<open>displayContent(item, bypassWarning)\<close>; the second parameter is never read.
\<close>

definition displayContent :: "platform \<Rightarrow> app \<Rightarrow> item \<Rightarrow> bool \<Rightarrow> app" where
  "displayContent p s item bypassWarning =
     (let s1 = navigateToPage s (str ''content-viewer'') in
      case contentDisplay s1 of
        None \<Rightarrow> s1
      | Some old \<Rightarrow> s1\<lparr>contentDisplay := Some (fullView_template p bullet_main item)\<rparr>)"

text \<open>\<open>ContentViewer.display(item)\<close>, the component's copy, without the navigation.\<close>

definition ContentViewer_display :: "platform \<Rightarrow> app \<Rightarrow> item \<Rightarrow> app" where
  "ContentViewer_display p s item =
     (case contentDisplay s of
        None \<Rightarrow> s
      | Some old \<Rightarrow> s\<lparr>contentDisplay := Some (fullView_template p bullet_viewer item)\<rparr>)"

definition showContentWarning :: "platform \<Rightarrow> app \<Rightarrow> item \<Rightarrow> app" where
  "showContentWarning p s item =
     (let s1 = (case warningContentType s of
                  None \<Rightarrow> s
                | Some old \<Rightarrow> s\<lparr>warningContentType := Some (toUpperCase p (content_type item))\<rparr>)
      in case contentWarning s1 of
           None \<Rightarrow> s1
         | Some h \<Rightarrow> s1\<lparr>contentWarning := Some False\<rparr>)"

definition hideContentWarning :: "app \<Rightarrow> app" where
  "hideContentWarning s =
     (case contentWarning s of None \<Rightarrow> s | Some h \<Rightarrow> s\<lparr>contentWarning := Some True\<rparr>)"

definition openContent :: "platform \<Rightarrow> app \<Rightarrow> item \<Rightarrow> app" where
  "openContent p s item =
     (if explicit_content item \<and> \<not> explicitContentEnabled s
      then showContentWarning p (s\<lparr>currentContent := Some item\<rparr>) item
      else displayContent p s item False)"

text \<open>The click listener of \<open>#confirmAge\<close>.\<close>

definition confirmAge_click :: "platform \<Rightarrow> app \<Rightarrow> app" where
  "confirmAge_click p s =
     (let s1 = hideContentWarning s in
      case currentContent s1 of
        None \<Rightarrow> s1
      | Some item \<Rightarrow> displayContent p s1 item True)"

subsection \<open>Tag cloud\<close>

text \<open>
  The \<open>map\<close> callback of \<open>loadTagCloud\<close> over the tags; reading \<open>tag.name\<close> and
  converting it for \<open>escapeHtml\<close> can throw, which ends the whole \<open>map\<close>.
\<close>

fun tag_spans :: "platform \<Rightarrow> jsval list \<Rightarrow> error + jsstring list" where
  "tag_spans p [] = Inr []"
| "tag_spans p (tag # rest) =
     (case get_property tag (str ''name'') of
        Inl e \<Rightarrow> Inl e
      | Inr n \<Rightarrow>
          (case escapeHtml_value p n of
             Inl e \<Rightarrow> Inl e
           | Inr escaped \<Rightarrow>
               (case tag_spans p rest of
                  Inl e \<Rightarrow> Inl e
                | Inr spans \<Rightarrow>
                    Inr ((str ''<span class=\"tag\" data-tag=\"'' @ escaped @ str ''\">''
                          @ escaped @ str ''</span>'') # spans))))"

text \<open>
  \<open>loadTagCloud\<close> up to its \<open>await\<close>, and from the \<open>await\<close> on, given what
  \<open>API.getTags()\<close> settled with. The case on \<open>Arr\<close> is \<open>Array.isArray(tags)\<close>. Every
  exception is caught and logged.
\<close>

definition loadTagCloud :: "app \<Rightarrow> app" where
  "loadTagCloud s = s\<lparr>api_calls := api_calls s @ [GetTags]\<rparr>"

definition loadTagCloud_then :: "platform \<Rightarrow> app \<Rightarrow> error + jsval \<Rightarrow> app" where
  "loadTagCloud_then p s api =
     (case api of
        Inl e \<Rightarrow> s
      | Inr response \<Rightarrow>
          (case get_property response (str ''tags'') of
             Inl e \<Rightarrow> s
           | Inr t \<Rightarrow>
               let tags = (if truthy t then t else response) in
               (case tagCloud s of
                  None \<Rightarrow> s
                | Some old \<Rightarrow>
                    (case tags of
                       Arr ts \<Rightarrow>
                         (case tag_spans p (take 12 ts) of
                            Inl e \<Rightarrow> s
                          | Inr spans \<Rightarrow> s\<lparr>tagCloud := Some (join spans [])\<rparr>)
                     | _ \<Rightarrow> s))))"

subsection \<open>Quick search\<close>

text \<open>
  \<open>setTimeout\<close> hands out the next handle and queues the callback; \<open>clearTimeout\<close>
  removes the timer with that handle, if it is still pending.
\<close>

definition setTimeout :: "app \<Rightarrow> callback \<Rightarrow> nat \<Rightarrow> nat \<times> app" where
  "setTimeout s cb delay =
     (next_handle s,
      s\<lparr>timers := timers s @ [\<lparr>handle = next_handle s, due = clock s + delay, callback = cb\<rparr>],
        next_handle := Suc (next_handle s)\<rparr>)"

definition clearTimeout :: "app \<Rightarrow> nat \<Rightarrow> app" where
  "clearTimeout s h = s\<lparr>timers := filter (\<lambda>t. handle t \<noteq> h) (timers s)\<rparr>"

definition showSearchResults :: "app \<Rightarrow> app" where
  "showSearchResults s =
     (case searchResults s of
        None \<Rightarrow> s
      | Some pn \<Rightarrow> s\<lparr>searchResults := Some (pn\<lparr>hidden := False\<rparr>)\<rparr>)"

definition hideSearchResults :: "app \<Rightarrow> app" where
  "hideSearchResults s =
     (case searchResults s of
        None \<Rightarrow> s
      | Some pn \<Rightarrow> s\<lparr>searchResults := Some (pn\<lparr>hidden := True\<rparr>)\<rparr>)"

text \<open>
  \<open>performSearch(query)\<close> up to its \<open>await\<close>: the search request is issued. What follows
  the \<open>await\<close> runs when the response arrives and is no part of the keystroke handling.
\<close>

definition performSearch :: "app \<Rightarrow> jsstring \<Rightarrow> app" where
  "performSearch s query =
     s\<lparr>api_calls := api_calls s @ [Search query 10 (explicitContentEnabled s)]\<rparr>"

text \<open>
  The \<open>input\<close> listener of \<open>initSearchBar\<close>; \<open>v\<close> is \<open>e.target.value\<close>. The test
  \<open>if (this.searchTimeout)\<close> is the truthiness of the stored handle.
\<close>

definition searchInput_input :: "app \<Rightarrow> jsstring \<Rightarrow> app" where
  "searchInput_input s v =
     (let query = trim v;
          s0 = s\<lparr>searchInput := v\<rparr>;
          s1 = (case searchTimeout s0 of
                  None \<Rightarrow> s0
                | Some h \<Rightarrow> if h \<noteq> 0 then clearTimeout s0 h else s0);
          (h', s2) = setTimeout s1 (SearchDebounce query) 300
      in s2\<lparr>searchTimeout := Some h'\<rparr>)"

text \<open>The \<open>focus\<close> and \<open>blur\<close> listeners.\<close>

definition searchInput_focus :: "app \<Rightarrow> app" where
  "searchInput_focus s =
     (if length (trim (searchInput s)) \<ge> 2 then showSearchResults s else s)"

definition searchInput_blur :: "app \<Rightarrow> app" where
  "searchInput_blur s = snd (setTimeout s BlurHide 200)"

text \<open>The bodies of the two timer callbacks.\<close>

definition run_callback :: "app \<Rightarrow> callback \<Rightarrow> app" where
  "run_callback s cb =
     (case cb of
        SearchDebounce query \<Rightarrow>
          if length query \<ge> 2 then performSearch s query else hideSearchResults s
      | BlurHide \<Rightarrow> hideSearchResults s)"

text \<open>
  The pending timer with handle \<open>h\<close> expires: it leaves the queue, the clock is at its due
  time at the earliest, and its callback runs. Nothing happens for a handle that is not
  pending.
\<close>

definition fire :: "app \<Rightarrow> nat \<Rightarrow> app" where
  "fire s h =
     (case find (\<lambda>t. handle t = h) (timers s) of
        None \<Rightarrow> s
      | Some t \<Rightarrow>
          run_callback
            (s\<lparr>timers := filter (\<lambda>t. handle t \<noteq> h) (timers s),
               clock := max (clock s) (due t)\<rparr>)
            (callback t))"

text \<open>
  What the browser guarantees of timer handles: they are positive, and a handle not yet
  handed out is larger than every pending one.
\<close>

definition timers_wf :: "app \<Rightarrow> bool" where
  "timers_wf s =
     (0 < next_handle s
      \<and> list_all (\<lambda>t. 0 < handle t \<and> handle t < next_handle s) (timers s))"

text \<open>The panel with class \<open>hidden\<close> added and its markup untouched.\<close>

definition hide_panel :: "panel option \<Rightarrow> panel option" where
  "hide_panel pn = map_option (\<lambda>x. x\<lparr>hidden := True\<rparr>) pn"

section \<open>The API client\<close>

record client =
  timeout :: nat
  retryAttempts :: nat
  retryDelay :: nat

text \<open>The values the constructor of \<open>APIClient\<close> sets.\<close>

definition APIClient :: client where
  "APIClient = \<lparr> timeout = 10000, retryAttempts = 3, retryDelay = 1000 \<rparr>"

text \<open>
  A \<open>Response\<close>: \<open>status\<close> is an unsigned 16-bit number; \<open>json\<close> is what
  \<open>response.json()\<close> resolves with, \<open>None\<close> when the body is not JSON and the call
  rejects.
\<close>

record response =
  ok :: bool
  status :: "16 word"
  statusText :: jsstring
  json :: "jsval option"

text \<open>
  What the network does with one \<open>fetch\<close>: after so many milliseconds it rejects with an
  error or resolves with a response.
\<close>

datatype fetch_outcome = Rejects nat error | Responds nat response

text \<open>
  \<open>fetch\<close> under the abort signal armed with \<open>setTimeout(() => controller.abort(),
  this.timeout)\<close>: a fetch still unsettled when the timeout expires rejects with an
  \<open>AbortError\<close>.
\<close>

definition fetch_with_signal :: "client \<Rightarrow> fetch_outcome \<Rightarrow> error + response" where
  "fetch_with_signal c outcome =
     (case outcome of
        Rejects t e \<Rightarrow> if timeout c \<le> t then Inl AbortError else Inl e
      | Responds t r \<Rightarrow> if timeout c \<le> t then Inl AbortError else Inr r)"

text \<open>
  The body of the \<open>try\<close> block of \<open>makeRequest\<close>: \<open>Inl\<close> is the exception the
  \<open>catch\<close> clause receives, \<open>Inr\<close> the returned data.
\<close>

definition try_block :: "client \<Rightarrow> fetch_outcome \<Rightarrow> error + jsval" where
  "try_block c outcome =
     (case fetch_with_signal c outcome of
        Inl e \<Rightarrow> Inl e
      | Inr r \<Rightarrow>
          if \<not> ok r then
            Inl (APIError
                   (str ''HTTP '' @ digits (unat (status r)) @ str '': '' @ statusText r)
                   (unat (status r))
                   (case json r of None \<Rightarrow> Obj [] | Some errorData \<Rightarrow> errorData))
          else
            (case json r of
               None \<Rightarrow> Inl SyntaxError
             | Some data \<Rightarrow> Inr data))"

text \<open>What \<open>makeRequest\<close> does towards the outside, in order.\<close>

datatype event = Fetch nat | Delay nat

text \<open>
  The \<open>for\<close> loop of \<open>makeRequest\<close> from \<open>attempt\<close> on; \<open>net k\<close> is what the network
  does with the fetch of attempt \<open>k\<close>. The result is how the promise settles (\<open>Inl\<close>
  rejected, \<open>Inr\<close> resolved) and the events so far. A loop that ends without returning
  resolves with \<open>undefined\<close>.
\<close>

function makeRequest_from ::
  "client \<Rightarrow> (nat \<Rightarrow> fetch_outcome) \<Rightarrow> nat \<Rightarrow> (error + jsval) \<times> event list" where
  "makeRequest_from c net attempt =
     (if attempt \<le> retryAttempts c then
        (case try_block c (net attempt) of
           Inr data \<Rightarrow> (Inr data, [Fetch attempt])
         | Inl e \<Rightarrow>
             if attempt = retryAttempts c then (Inl e, [Fetch attempt])
             else
               (let (result, events) = makeRequest_from c net (attempt + 1)
                in (result, Fetch attempt # Delay (retryDelay c * attempt) # events)))
      else (Inr Undefined, []))"
  by pat_completeness auto
termination
  by (relation "measure (\<lambda>(c, net, attempt). Suc (retryAttempts c) - attempt)") auto

definition makeRequest :: "client \<Rightarrow> (nat \<Rightarrow> fetch_outcome) \<Rightarrow> (error + jsval) \<times> event list" where
  "makeRequest c net = makeRequest_from c net 1"

text \<open>The attempts made, and the delay waited immediately before a given attempt.\<close>

fun fetches :: "event list \<Rightarrow> nat list" where
  "fetches [] = []"
| "fetches (Fetch k # es) = k # fetches es"
| "fetches (Delay d # es) = fetches es"

fun delay_before :: "event list \<Rightarrow> nat \<Rightarrow> nat option" where
  "delay_before (Delay d # Fetch k # es) n =
     (if k = n then Some d else delay_before (Fetch k # es) n)"
| "delay_before (e # es) n = delay_before es n"
| "delay_before [] n = None"

text \<open>
  \<open>healthCheck\<close>: a plain \<open>fetch('/health')\<close> with no abort signal, inside
  \<open>try\<close>/\<open>catch\<close>.
\<close>

definition healthCheck :: "fetch_outcome \<Rightarrow> error + bool" where
  "healthCheck outcome =
     (case outcome of
        Rejects t e \<Rightarrow> Inr False
      | Responds t r \<Rightarrow> Inr (ok r))"

text \<open>
  The object \<open>getConnectionStatus\<close> resolves with; \<open>now\<close> is
  \<open>new Date().toISOString()\<close>, and \<open>conn_error\<close> stands for the \<open>error\<close> property,
  holding the caught exception whose message it reports.
\<close>

record connection =
  conn_status :: jsstring
  conn_error :: "error option"
  timestamp :: jsstring

definition getConnectionStatus :: "fetch_outcome \<Rightarrow> jsstring \<Rightarrow> connection" where
  "getConnectionStatus outcome now =
     (case healthCheck outcome of
        Inr b \<Rightarrow> \<lparr> conn_status = str ''online'', conn_error = None, timestamp = now \<rparr>
      | Inl e \<Rightarrow> \<lparr> conn_status = str ''offline'', conn_error = Some e, timestamp = now \<rparr>)"

section \<open>Example inputs\<close>

text \<open>
  A network that refuses the first fetch, answers the second with a 503 and the third
  with a list; and one that answers every fetch with a 500.
\<close>

definition net_ffs :: "nat \<Rightarrow> fetch_outcome" where
  "net_ffs k =
     (if k = 1 then Rejects 20 TypeError
      else if k = 2 then
        Responds 35 \<lparr> ok = False, status = 503, statusText = str ''Service Unavailable'',
                      json = None \<rparr>
      else
        Responds 40 \<lparr> ok = True, status = 200, statusText = str ''OK'',
                      json = Some (Obj [(str ''items'', Arr [])]) \<rparr>)"

definition net_fff :: "nat \<Rightarrow> fetch_outcome" where
  "net_fff k =
     Responds 15 \<lparr> ok = False, status = 500, statusText = str ''Internal Server Error'',
                   json = Some (Num (int k)) \<rparr>"

text \<open>
  A document that has every element the application looks up, in the state the
  constructor leaves the application in; the quick-search panel is showing.
\<close>

definition example_app :: app where
  "example_app =
     \<lparr> currentPage = str ''dashboard'', explicitContentEnabled = False,
       currentContent = None, searchTimeout = None,
       recentContent = Some [], browseContent = Some [],
       contentDisplay = Some [], tagCloud = Some [],
       searchResults = Some \<lparr> panel_innerHTML =
                                 str ''<div class=\"search-result-item\">No results found</div>'',
                               hidden = False \<rparr>,
       contentWarning = Some True, warningContentType = Some [],
       navLinks = [str ''dashboard'', str ''browse'', str ''search'', str ''tags'',
                   str ''analytics''],
       activeLinks = [str ''dashboard''],
       pages = [str ''dashboard'', str ''browse'', str ''search'', str ''tags'',
                str ''analytics'', str ''content-viewer''],
       activePages = [str ''dashboard''],
       searchInput = [], clock = 0, timers = [], next_handle = 1, api_calls = [] \<rparr>"

text \<open>An explicit item, and an item whose title, body and tag name hold markup.\<close>

definition nsfw_item :: item where
  "nsfw_item =
     \<lparr> item_id = 7, title = str ''After hours'', content = str ''Not for the dashboard.'',
       content_type = str ''erotica'', word_count = 4, explicit_content = True,
       file_timestamp = str ''2024-05-01T10:00:00Z'', tags = None \<rparr>"

definition xss_item :: item where
  "xss_item =
     \<lparr> item_id = 8, title = str ''Tea & <i>sympathy</i>'', content = str ''a < b'',
       content_type = str ''prose'', word_count = 3, explicit_content = False,
       file_timestamp = str ''2024-05-02T10:00:00Z'',
       tags = Some [\<lparr> tag_id = 1, name = str ''<img src=x onerror=alert(1)>'' \<rparr>] \<rparr>"

text \<open>
  A platform for the examples: upper case for ASCII letters, the \<open>en-US\<close> short dates
  of the two timestamps above, and the exponent notation of \<open>1e21\<close> and of \<open>-1e21\<close>
  (the examples hold no number that large).
\<close>

definition example_platform :: platform where
  "example_platform =
     \<lparr> toUpperCase = map (\<lambda>c. if 0x61 \<le> c \<and> c \<le> 0x7A then c - 0x20 else c),
       formatDate = (\<lambda>d. if d = str ''2024-05-01T10:00:00Z'' then str ''May 1, 2024''
                          else if d = str ''2024-05-02T10:00:00Z'' then str ''May 2, 2024''
                          else str ''Invalid Date''),
       exponentNotation = (\<lambda>n. if n < 0 then str ''-1e+21'' else str ''1e+21'') \<rparr>"

section \<open>Properties of the card excerpt\<close>

lemma substring_from_start: "substring s 0 n = take n s"
  by (simp add: substring_def Let_def min_def max_def)

lemma excerpt_cases:
  "excerpt body = (if 150 < length body then take 150 body @ str ''...'' else body)"
  by (simp add: excerpt_def substring_from_start)

lemma length_ellipsis: "length (str ''...'') = 3"
  by (simp add: str_def)

text \<open>
  C4, as stated, at a body of 151 letters \<open>a\<close>: the excerpt is 150 letters followed by
  the three dots, 153 code units, and so cannot be a prefix of the 151-unit body.
\<close>

theorem excerpt_prefix_counterexample:
  "\<not> prefix (excerpt (replicate 151 0x61)) (replicate 151 0x61)"
proof
  assume "prefix (excerpt (replicate 151 0x61)) (replicate 151 0x61)"
  then have "length (excerpt (replicate 151 0x61)) \<le> length (replicate 151 (0x61 :: code_unit))"
    by (rule prefix_length_le)
  then show False
    by (simp add: excerpt_cases length_ellipsis)
qed

text \<open>
  C4, amended: for any body the excerpt has at most 153 code units; it is the first 150
  code units followed by \<open>...\<close> when the body is longer than 150 code units and the body
  itself otherwise; and the first 150 code units of the excerpt (the excerpt without the
  appended dots) are a prefix of the body.
\<close>

theorem excerpt_truncation:
  "length (excerpt body) \<le> 153
   \<and> excerpt body = (if 150 < length body then take 150 body @ str ''...'' else body)
   \<and> prefix (take 150 (excerpt body)) body"
  by (simp add: excerpt_cases length_ellipsis take_is_prefix)

section \<open>Properties of the retry loop\<close>

declare makeRequest_from.simps [simp del]

lemma makeRequest_from_last:
  "attempt = retryAttempts c \<Longrightarrow>
   makeRequest_from c net attempt = (try_block c (net attempt), [Fetch attempt])"
  by (subst makeRequest_from.simps) (simp split: sum.splits)

lemma makeRequest_from_retry:
  "attempt < retryAttempts c \<Longrightarrow> isl (try_block c (net attempt)) \<Longrightarrow>
   makeRequest_from c net attempt =
     (fst (makeRequest_from c net (Suc attempt)),
      Fetch attempt # Delay (retryDelay c * attempt) # snd (makeRequest_from c net (Suc attempt)))"
  by (subst makeRequest_from.simps) (auto simp: isl_def split: prod.splits)

lemma makeRequest_from_head:
  "attempt \<le> retryAttempts c \<Longrightarrow>
   \<exists>rest. snd (makeRequest_from c net attempt) = Fetch attempt # rest"
  by (subst makeRequest_from.simps) (simp split: sum.splits prod.splits)

lemma try_block_net_ffs:
  "isl (try_block APIClient (net_ffs 1))"
  "isl (try_block APIClient (net_ffs 2))"
  "try_block APIClient (net_ffs 3) = Inr (Obj [(str ''items'', Arr [])])"
  by (simp_all add: APIClient_def net_ffs_def try_block_def fetch_with_signal_def)

lemma try_block_net_fff:
  "try_block APIClient (net_fff k) =
     Inl (APIError (str ''HTTP 500: Internal Server Error'') 500 (Num (int k)))"
  by (simp add: APIClient_def net_fff_def try_block_def fetch_with_signal_def str_def)

text \<open>
  C2: with a budget of three attempts, when the first two attempts throw, the promise
  settles exactly as the third attempt does (resolved with its data when it succeeds,
  rejected with its error when it throws), and the fetches made are those of attempts
  1, 2 and 3 and no other.
\<close>

theorem makeRequest_retry_budget:
  assumes "retryAttempts c = 3"
    and "isl (try_block c (net 1))" and "isl (try_block c (net 2))"
  shows "fst (makeRequest c net) = try_block c (net 3)
         \<and> fetches (snd (makeRequest c net)) = [1, 2, 3]"
proof -
  have 3: "makeRequest_from c net 3 = (try_block c (net 3), [Fetch 3])"
    using assms(1) by (simp add: makeRequest_from_last)
  have 2: "makeRequest_from c net 2 =
             (try_block c (net 3), [Fetch 2, Delay (retryDelay c * 2), Fetch 3])"
    using makeRequest_from_retry[of 2 c net] assms(1,3) 3
    by (simp add: numeral_3_eq_3 numeral_2_eq_2)
  have 1: "makeRequest_from c net 1 =
             (try_block c (net 3),
              [Fetch 1, Delay (retryDelay c * 1), Fetch 2, Delay (retryDelay c * 2), Fetch 3])"
    using makeRequest_from_retry[of 1 c net] assms(1,2) 2 by (simp add: numeral_2_eq_2)
  show ?thesis unfolding makeRequest_def 1 by simp
qed

theorem makeRequest_retry_budget_witness:
  "retryAttempts APIClient = 3
   \<and> isl (try_block APIClient (net_ffs 1)) \<and> isl (try_block APIClient (net_ffs 2))
   \<and> fst (makeRequest APIClient net_ffs) = Inr (Obj [(str ''items'', Arr [])])
   \<and> fetches (snd (makeRequest APIClient net_ffs)) = [1, 2, 3]
   \<and> isl (try_block APIClient (net_fff 1)) \<and> isl (try_block APIClient (net_fff 2))
   \<and> fst (makeRequest APIClient net_fff) =
       Inl (APIError (str ''HTTP 500: Internal Server Error'') 500 (Num 3))
   \<and> fetches (snd (makeRequest APIClient net_fff)) = [1, 2, 3]"
proof -
  have r: "retryAttempts APIClient = 3"
    by (simp add: APIClient_def)
  have f: "isl (try_block APIClient (net_fff 1))" "isl (try_block APIClient (net_fff 2))"
    by (simp_all add: try_block_net_fff)
  show ?thesis
    using r f try_block_net_ffs
      makeRequest_retry_budget[OF r try_block_net_ffs(1,2)]
      makeRequest_retry_budget[OF r f] try_block_net_fff[of 3]
    by simp
qed

subsection \<open>Backoff\<close>

lemma delay_before_failures:
  "a \<le> n \<Longrightarrow> n < retryAttempts c \<Longrightarrow>
   \<forall>k. a \<le> k \<and> k \<le> n \<longrightarrow> isl (try_block c (net k)) \<Longrightarrow>
   delay_before (snd (makeRequest_from c net a)) (Suc n) = Some (retryDelay c * n)"
proof (induction "n - a" arbitrary: a)
  case 0
  then have an: "a = n" by simp
  obtain rest where r: "snd (makeRequest_from c net (Suc n)) = Fetch (Suc n) # rest"
    using makeRequest_from_head[of "Suc n" c net] "0.prems" by auto
  show ?case using "0.prems" an r by (simp add: makeRequest_from_retry)
next
  case (Suc d)
  then have lt: "a < n" by simp
  obtain rest where r: "snd (makeRequest_from c net (Suc a)) = Fetch (Suc a) # rest"
    using makeRequest_from_head[of "Suc a" c net] Suc.prems lt by auto
  have ih: "delay_before (snd (makeRequest_from c net (Suc a))) (Suc n) = Some (retryDelay c * n)"
    using Suc.hyps(1)[of "Suc a"] Suc.hyps(2) Suc.prems lt by simp
  have "a < retryAttempts c" "isl (try_block c (net a))"
    using Suc.prems lt by auto
  then have "snd (makeRequest_from c net a) =
      Fetch a # Delay (retryDelay c * a) # Fetch (Suc a) # rest"
    using r by (simp add: makeRequest_from_retry)
  then show ?case using ih r lt by simp
qed

lemma delay_before_first:
  "m \<le> a \<Longrightarrow> delay_before (snd (makeRequest_from c net a)) m = None"
proof (induction c net a rule: makeRequest_from.induct)
  case (1 c net attempt)
  show ?case
  proof (cases "attempt < retryAttempts c \<and> isl (try_block c (net attempt))")
    case True
    obtain rest where r: "snd (makeRequest_from c net (Suc attempt)) = Fetch (Suc attempt) # rest"
      using makeRequest_from_head[of "Suc attempt" c net] True by auto
    from True obtain e where e: "try_block c (net attempt) = Inl e"
      by (auto simp: isl_def)
    have "delay_before (snd (makeRequest_from c net (attempt + 1))) m = None"
      using "1.IH"[OF _ e] True "1.prems" by simp
    then show ?thesis
      using True r "1.prems" by (simp add: makeRequest_from_retry)
  next
    case False
    then show ?thesis
      by (subst makeRequest_from.simps) (auto simp: isl_def split: sum.splits)
  qed
qed

text \<open>
  C5, as stated, on the client as constructed and a network that refuses every fetch:
  the delay waited before attempt 2 is \<open>retryDelay * 1\<close> (1000 ms), not
  \<open>retryDelay * 2\<close>.
\<close>

theorem delay_before_attempt_counterexample:
  "delay_before (snd (makeRequest APIClient (\<lambda>k. Rejects 20 TypeError))) 2 = Some 1000
   \<and> delay_before (snd (makeRequest APIClient (\<lambda>k. Rejects 20 TypeError))) 2
       \<noteq> Some (retryDelay APIClient * 2)"
  by code_simp

text \<open>
  C5, amended: when attempts 1 to \<open>n\<close> all throw and \<open>n\<close> is below the attempt budget,
  the delay waited after attempt \<open>n\<close>, that is immediately before attempt \<open>n + 1\<close>, is
  \<open>retryDelay * n\<close> (linear in the number of the attempt that failed); nothing is waited
  before attempt 1.
\<close>

theorem makeRequest_linear_backoff:
  assumes "1 \<le> n" and "n < retryAttempts c"
    and "\<forall>k. 1 \<le> k \<and> k \<le> n \<longrightarrow> isl (try_block c (net k))"
  shows "delay_before (snd (makeRequest c net)) (Suc n) = Some (retryDelay c * n)
         \<and> delay_before (snd (makeRequest c net)) 1 = None"
  using assms delay_before_failures[of 1 n c net] delay_before_first[of 1 1 c net]
  by (simp add: makeRequest_def)

theorem makeRequest_linear_backoff_witness:
  "delay_before (snd (makeRequest APIClient net_ffs)) 3 = Some 2000
   \<and> delay_before (snd (makeRequest APIClient net_ffs)) 1 = None"
proof -
  have "\<forall>k. 1 \<le> k \<and> k \<le> 2 \<longrightarrow> isl (try_block APIClient (net_ffs k))"
  proof (intro allI impI)
    fix k :: nat
    assume "1 \<le> k \<and> k \<le> 2"
    then have "k = 1 \<or> k = 2" by auto
    then show "isl (try_block APIClient (net_ffs k))"
      using try_block_net_ffs(1,2) by auto
  qed
  from makeRequest_linear_backoff[of 2 APIClient net_ffs, OF _ _ this]
  show ?thesis by (simp add: APIClient_def)
qed

section \<open>Properties of the health probe\<close>

text \<open>
  C10: \<open>healthCheck\<close> never rejects; it resolves \<open>true\<close> exactly when the fetch
  resolved with an \<open>ok\<close> response and \<open>false\<close> when the fetch rejected (or the response
  was not ok). So \<open>getConnectionStatus\<close> never takes its \<open>catch\<close> branch and always
  resolves with status \<open>online\<close> and no error, whatever the probe found.
\<close>

theorem healthCheck_never_rejects:
  "healthCheck outcome =
     Inr (case outcome of Rejects t e \<Rightarrow> False | Responds t r \<Rightarrow> ok r)
   \<and> getConnectionStatus outcome now =
     \<lparr> conn_status = str ''online'', conn_error = None, timestamp = now \<rparr>"
  by (cases outcome) (simp_all add: healthCheck_def getConnectionStatus_def)

section \<open>Properties of the tag cloud\<close>

lemma str_tags_nonempty [simp]: "str ''tags'' \<noteq> []"
  by (simp add: str_def)

text \<open>
  C7: for any tag list \<open>t\<close>, the response \<open>{tags: t}\<close> and the bare array \<open>t\<close> leave
  the application in the same state; both render the first twelve tags into the tag cloud
  (when the document has one and reading and converting every \<open>tag.name\<close> succeeds).
\<close>

theorem loadTagCloud_accepts_both_shapes:
  "loadTagCloud_then p s (Inr (Obj [(str ''tags'', Arr t)])) = loadTagCloud_then p s (Inr (Arr t))
   \<and> loadTagCloud_then p s (Inr (Arr t)) =
       (case tagCloud s of
          None \<Rightarrow> s
        | Some old \<Rightarrow>
            (case tag_spans p (take 12 t) of
               Inl e \<Rightarrow> s
             | Inr spans \<Rightarrow> s\<lparr>tagCloud := Some (join spans [])\<rparr>))"
  by (simp add: loadTagCloud_then_def split: option.splits)

section \<open>Properties of the body formatting\<close>

lemma join_empty: "join xs [] = concat xs"
  by (induction xs "[] :: jsstring" rule: join.induct) simp_all

lemma join_Cons: "xs \<noteq> [] \<Longrightarrow> join (x # xs) sep = x @ sep @ join xs sep"
  by (cases xs) simp_all

lemma dropWhile_rest_all:
  "(\<forall>x\<in>set (dropWhile P xs). P x) \<longleftrightarrow> (\<forall>x\<in>set xs. P x)"
  by (induction xs) simp_all

lemma trim_empty_iff: "trim s = [] \<longleftrightarrow> list_all isWhiteSpace s"
  by (simp add: trim_def dropWhile_rest_all list_all_iff)

lemma if_swap: "(if \<not> b then x else y) = (if b then y else x)"
  by simp

lemma split_from_nonempty: "split_from sep acc s \<noteq> []"
  by (induction sep acc s rule: split_from.induct) auto

lemma join_split_from: "sep \<noteq> [] \<Longrightarrow> join (split_from sep acc s) sep = acc @ s"
proof (induction sep acc s rule: split_from.induct)
  case (1 sep acc)
  then show ?case by simp
next
  case (2 sep acc c cs)
  show ?case
  proof (cases "prefix sep (c # cs)")
    case True
    then have "c # cs = sep @ drop (length sep) (c # cs)"
      by (metis append_eq_conv_conj prefix_def)
    then show ?thesis
      using 2 True by (simp add: join_Cons split_from_nonempty del: drop_Suc_Cons)
  next
    case False
    then show ?thesis using 2 by simp
  qed
qed

lemma join_split: "join (split s sep) sep = s"
proof (cases "sep = []")
  case True
  have "join (map (\<lambda>c. [c]) s) [] = s"
    by (induction s) (simp_all add: join_empty)
  then show ?thesis using True by (simp add: split_def)
next
  case False
  then show ?thesis by (simp add: split_def join_split_from)
qed

lemma split_from_nl:
  "0x0A \<notin> set acc \<Longrightarrow> list_all (\<lambda>line. 0x0A \<notin> set line) (split_from nl acc s)"
proof (induction nl acc s rule: split_from.induct)
  case (1 acc)
  then show ?case by simp
next
  case (2 acc c cs)
  then show ?case by (auto simp: nl_def)
qed

lemma formatContentForDisplay_rule:
  "formatContentForDisplay body type' = formatting_rule type' body"
  unfolding formatContentForDisplay_def formatting_rule_def join_empty
    wrap_paragraph_def [abs_def] blank_def trim_empty_iff if_swap
  by (rule refl)

lemma str_types: "str ''dialogue'' \<noteq> str ''poetry''"
  by (simp add: str_def)

subsection \<open>Where the double-newline split cuts\<close>

text \<open>
  No piece holds a double newline, and no piece but the last ends in a newline: the cut is
  at the leftmost double newline, and the scan resumes right after it.
\<close>

lemma sublist_nlnl_snoc:
  "sublist (nl @ nl) (acc @ [c]) \<longleftrightarrow> sublist (nl @ nl) acc \<or> (suffix nl acc \<and> c = 0x0A)"
  by (auto simp: sublist_append nl_def sublist_Cons_right append_eq_Cons_conv Cons_eq_append_conv)

lemma prefix_nlnl_Cons:
  "prefix (nl @ nl) (c # cs) \<longleftrightarrow> c = 0x0A \<and> prefix nl cs"
  by (auto simp: nl_def)

lemma split_from_nlnl_pieces:
  "\<not> sublist (nl @ nl) acc \<Longrightarrow> \<not> (suffix nl acc \<and> prefix nl s) \<Longrightarrow>
   list_all (\<lambda>piece. \<not> sublist (nl @ nl) piece) (split_from (nl @ nl) acc s)
   \<and> list_all (\<lambda>piece. \<not> suffix nl piece) (butlast (split_from (nl @ nl) acc s))"
proof (induction "nl @ nl" acc s rule: split_from.induct)
  case (1 acc)
  then show ?case by simp
next
  case (2 acc c cs)
  show ?case
  proof (cases "prefix (nl @ nl) (c # cs)")
    case True
    then have c: "c = 0x0A" by (simp add: prefix_nlnl_Cons)
    then have ns: "\<not> suffix nl acc" using "2.prems"(2) by (auto simp: nl_def)
    have ne: "nl @ nl \<noteq> []" by (simp add: nl_def)
    have ih: "list_all (\<lambda>piece. \<not> sublist (nl @ nl) piece)
                (split_from (nl @ nl) [] (drop (length (nl @ nl)) (c # cs)))
              \<and> list_all (\<lambda>piece. \<not> suffix nl piece)
                (butlast (split_from (nl @ nl) [] (drop (length (nl @ nl)) (c # cs))))"
      using "2.hyps"(1) True ne by (simp add: nl_def)
    have "split_from (nl @ nl) acc (c # cs)
          = acc # split_from (nl @ nl) [] (drop (length (nl @ nl)) (c # cs))"
      using True ne by simp
    then show ?thesis
      using ih "2.prems"(1) ns by (simp add: split_from_nonempty)
  next
    case False
    have a: "\<not> sublist (nl @ nl) (acc @ [c])"
      using "2.prems" unfolding sublist_nlnl_snoc by (auto simp: nl_def)
    have b: "\<not> (suffix nl (acc @ [c]) \<and> prefix nl cs)"
      using False unfolding prefix_nlnl_Cons by (auto simp: nl_def)
    have "split_from (nl @ nl) acc (c # cs) = split_from (nl @ nl) (acc @ [c]) cs"
      using False by simp
    then show ?thesis
      using "2.hyps"(2) False a b by simp
  qed
qed

lemma split_nlnl:
  "list_all (\<lambda>piece. \<not> sublist (nl @ nl) piece) (split body (nl @ nl))
   \<and> list_all (\<lambda>piece. \<not> suffix nl piece) (butlast (split body (nl @ nl)))"
  using split_from_nlnl_pieces[of "[]" body] by (simp add: split_def nl_def)

subsection \<open>The pieces determine the split\<close>

text \<open>
  A body put together from lines without a newline splits back into exactly those lines;
  a body put together from pieces that hold no double newline and (the last apart) do not
  end in a newline splits back into exactly those pieces.
\<close>

lemma split_from_no_match:
  "\<not> sublist sep p \<Longrightarrow> split_from sep acc p = [acc @ p]"
proof (induction p arbitrary: acc)
  case Nil
  then show ?case by simp
next
  case (Cons c cs)
  have "\<not> prefix sep (c # cs)"
    using Cons.prems by (auto dest: prefix_imp_sublist)
  moreover have "\<not> sublist sep cs"
    using Cons.prems by (auto simp: sublist_Cons_right)
  ultimately show ?case
    using Cons.IH[of "acc @ [c]"] by simp
qed

lemma split_from_nl_piece:
  "0x0A \<notin> set p \<Longrightarrow> split_from nl acc (p @ nl @ s) = (acc @ p) # split_from nl [] s"
proof (induction p arbitrary: acc)
  case Nil
  then show ?case by (simp add: nl_def)
next
  case (Cons c cs)
  then show ?case using Cons.IH[of "acc @ [c]"] by (simp add: nl_def)
qed

lemma split_from_nlnl_piece:
  "\<not> sublist (nl @ nl) p \<Longrightarrow> \<not> suffix nl p \<Longrightarrow>
   split_from (nl @ nl) acc (p @ (nl @ nl) @ s) = (acc @ p) # split_from (nl @ nl) [] s"
proof (induction p arbitrary: acc)
  case Nil
  then show ?case by (simp add: nl_def)
next
  case (Cons c cs)
  have np: "\<not> prefix (nl @ nl) (c # cs @ (nl @ nl) @ s)"
  proof (cases cs)
    case Nil
    then show ?thesis using Cons.prems(2) by (auto simp: nl_def)
  next
    case (Cons d ds)
    then show ?thesis using Cons.prems(1) by (auto simp: nl_def sublist_Cons_right)
  qed
  have a: "\<not> sublist (nl @ nl) cs"
    using Cons.prems(1) by (auto simp: sublist_Cons_right)
  have b: "\<not> suffix nl cs"
    using Cons.prems(2) by (auto simp: suffix_Cons nl_def)
  show ?case
    using np Cons.IH[OF a b, of "acc @ [c]"] by simp
qed

lemma split_nl_unique:
  "pieces \<noteq> [] \<Longrightarrow> list_all (\<lambda>line. 0x0A \<notin> set line) pieces \<Longrightarrow>
   split (join pieces nl) nl = pieces"
proof (induction pieces rule: induct_list012)
  case 1
  then show ?case by simp
next
  case (2 x)
  then have "\<not> sublist nl x" by (auto simp: nl_def sublist_def)
  then show ?case by (simp add: split_def split_from_no_match) (simp add: nl_def)
next
  case (3 x y zs)
  then have "split_from nl [] (join (y # zs) nl) = y # zs"
    by (simp add: split_def nl_def)
  then show ?case
    using 3 split_from_nl_piece[of x "[]" "join (y # zs) nl"] by (simp add: split_def) (simp add: nl_def)
qed

lemma split_nlnl_unique:
  "pieces \<noteq> [] \<Longrightarrow> list_all (\<lambda>piece. \<not> sublist (nl @ nl) piece) pieces \<Longrightarrow>
   list_all (\<lambda>piece. \<not> suffix nl piece) (butlast pieces) \<Longrightarrow>
   split (join pieces (nl @ nl)) (nl @ nl) = pieces"
proof (induction pieces rule: induct_list012)
  case 1
  then show ?case by simp
next
  case (2 x)
  then show ?case by (simp add: split_def split_from_no_match) (simp add: nl_def)
next
  case (3 x y zs)
  then have "split_from (nl @ nl) [] (join (y # zs) (nl @ nl)) = y # zs"
    by (simp add: split_def nl_def)
  then show ?case
    using 3 split_from_nlnl_piece[of x "[]" "join (y # zs) (nl @ nl)"]
    by (simp add: split_def) (simp add: nl_def)
qed

subsection \<open>What trimming removes\<close>

text \<open>
  \<open>trim\<close> takes away a run of white space at the front and one at the back, and what
  is left neither starts nor ends with white space.
\<close>

lemma rev_dropWhile_takeWhile:
  "xs = rev (dropWhile P (rev xs)) @ rev (takeWhile P (rev xs))"
  by (metis rev_append rev_rev_ident takeWhile_dropWhile_id)

lemma dropWhile_trim:
  "dropWhile isWhiteSpace s
   = trim s @ rev (takeWhile isWhiteSpace (rev (dropWhile isWhiteSpace s)))"
  unfolding trim_def by (rule rev_dropWhile_takeWhile)

lemma trim_surrounded:
  "\<exists>a b. s = a @ trim s @ b \<and> list_all isWhiteSpace a \<and> list_all isWhiteSpace b"
proof -
  let ?a = "takeWhile isWhiteSpace s"
  let ?b = "rev (takeWhile isWhiteSpace (rev (dropWhile isWhiteSpace s)))"
  have "s = ?a @ trim s @ ?b"
    using dropWhile_trim[of s] by (metis takeWhile_dropWhile_id)
  moreover have "list_all isWhiteSpace ?a"
    by (auto simp: list_all_iff dest: set_takeWhileD)
  moreover have "list_all isWhiteSpace ?b"
    by (auto simp: list_all_iff dest: set_takeWhileD)
  ultimately show ?thesis by blast
qed

lemma take1_dropWhile: "list_all (\<lambda>c. \<not> P c) (take (Suc 0) (dropWhile P xs))"
  by (induction xs) simp_all

lemma trim_ends:
  "list_all (\<lambda>c. \<not> isWhiteSpace c) (take 1 (trim s))
   \<and> list_all (\<lambda>c. \<not> isWhiteSpace c) (take 1 (rev (trim s)))"
proof -
  have last: "list_all (\<lambda>c. \<not> isWhiteSpace c) (take 1 (rev (trim s)))"
    by (simp add: trim_def take1_dropWhile)
  have first: "list_all (\<lambda>c. \<not> isWhiteSpace c) (take 1 (trim s))"
  proof (cases "trim s")
    case Nil
    then show ?thesis by simp
  next
    case (Cons c cs)
    then obtain r where "dropWhile isWhiteSpace s = c # r"
      using dropWhile_trim[of s] by simp
    then have "take (Suc 0) (dropWhile isWhiteSpace s) = [c]"
      by simp
    then have "\<not> isWhiteSpace c"
      using take1_dropWhile[of isWhiteSpace s] by simp
    then show ?thesis using Cons by simp
  qed
  show ?thesis using first last by simp
qed

text \<open>
  C6: \<open>formatContentForDisplay\<close> computes the formatting rule of the specification for
  every body and every content type. The splits are the ones the rule names: splitting
  is lossless for both separators, a line of poetry holds no newline, a double-newline
  piece holds no double newline and, the last apart, does not end in a newline; trimming
  removes surrounding white space and nothing else. Read from the pieces: poetry made of
  lines gives one paragraph per line, the non-breaking-space paragraph for a blank line;
  a body made of pieces joined by double newlines gives one paragraph per piece,
  untrimmed for dialogue and trimmed for every type other than poetry and dialogue.
\<close>

theorem formatContentForDisplay_by_type:
  "formatContentForDisplay body type' = formatting_rule type' body
   \<and> join (split body nl) nl = body
   \<and> list_all (\<lambda>line. 0x0A \<notin> set line) (split body nl)
   \<and> join (split body (nl @ nl)) (nl @ nl) = body
   \<and> list_all (\<lambda>piece. \<not> sublist (nl @ nl) piece) (split body (nl @ nl))
   \<and> list_all (\<lambda>piece. \<not> suffix nl piece) (butlast (split body (nl @ nl)))
   \<and> (\<exists>a b. paragraph = a @ trim paragraph @ b
              \<and> list_all isWhiteSpace a \<and> list_all isWhiteSpace b)
   \<and> list_all (\<lambda>c. \<not> isWhiteSpace c) (take 1 (trim paragraph))
   \<and> list_all (\<lambda>c. \<not> isWhiteSpace c) (take 1 (rev (trim paragraph)))
   \<and> (lines \<noteq> [] \<and> list_all (\<lambda>line. 0x0A \<notin> set line) lines \<longrightarrow>
        formatContentForDisplay (join lines nl) (str ''poetry'') =
          concat (map (\<lambda>line. if list_all isWhiteSpace line then str ''<p>&nbsp;</p>''
                              else str ''<p>'' @ escapeHtml line @ str ''</p>'') lines))
   \<and> (pieces \<noteq> [] \<and> list_all (\<lambda>piece. \<not> sublist (nl @ nl) piece) pieces
        \<and> list_all (\<lambda>piece. \<not> suffix nl piece) (butlast pieces) \<longrightarrow>
        formatContentForDisplay (join pieces (nl @ nl)) (str ''dialogue'') =
          concat (map (\<lambda>piece. str ''<p>'' @ escapeHtml piece @ str ''</p>'') pieces)
        \<and> (type' \<noteq> str ''poetry'' \<and> type' \<noteq> str ''dialogue'' \<longrightarrow>
             formatContentForDisplay (join pieces (nl @ nl)) type' =
               concat (map (\<lambda>piece. str ''<p>'' @ escapeHtml (trim piece) @ str ''</p>'')
                           pieces)))"
proof -
  have eq: "formatContentForDisplay body type' = formatting_rule type' body"
    by (rule formatContentForDisplay_rule)
  have lines_nl: "list_all (\<lambda>line. 0x0A \<notin> set line) (split body nl)"
    using split_from_nl[of "[]" body] by (simp add: split_def nl_def)
  have poetry: "lines \<noteq> [] \<and> list_all (\<lambda>line. 0x0A \<notin> set line) lines \<longrightarrow>
        formatContentForDisplay (join lines nl) (str ''poetry'') =
          concat (map (\<lambda>line. if list_all isWhiteSpace line then str ''<p>&nbsp;</p>''
                              else str ''<p>'' @ escapeHtml line @ str ''</p>'') lines)"
    unfolding formatContentForDisplay_rule formatting_rule_def blank_def wrap_paragraph_def [abs_def]
    by (simp add: split_nl_unique)
  have paragraphs: "pieces \<noteq> [] \<and> list_all (\<lambda>piece. \<not> sublist (nl @ nl) piece) pieces
        \<and> list_all (\<lambda>piece. \<not> suffix nl piece) (butlast pieces) \<longrightarrow>
        formatContentForDisplay (join pieces (nl @ nl)) (str ''dialogue'') =
          concat (map (\<lambda>piece. str ''<p>'' @ escapeHtml piece @ str ''</p>'') pieces)
        \<and> (type' \<noteq> str ''poetry'' \<and> type' \<noteq> str ''dialogue'' \<longrightarrow>
             formatContentForDisplay (join pieces (nl @ nl)) type' =
               concat (map (\<lambda>piece. str ''<p>'' @ escapeHtml (trim piece) @ str ''</p>'')
                           pieces))"
    unfolding formatContentForDisplay_rule formatting_rule_def blank_def wrap_paragraph_def [abs_def]
    by (simp add: split_nlnl_unique str_types)
  show ?thesis
    using eq lines_nl poetry paragraphs split_nlnl[of body] trim_surrounded[of "paragraph"] trim_ends[of "paragraph"]
    by (simp only: join_split simp_thms)
qed

theorem formatContentForDisplay_by_type_witness:
  "formatContentForDisplay (str ''roses'' @ nl @ sp 2 @ nl @ str ''<violets>'') (str ''poetry'')
     = str ''<p>roses</p><p>&nbsp;</p><p>&lt;violets&gt;</p>''
   \<and> formatContentForDisplay (str ''Hi'' @ nl @ nl @ str '' there '') (str ''dialogue'')
     = str ''<p>Hi</p><p> there </p>''
   \<and> formatContentForDisplay (str ''Hi'' @ nl @ nl @ str '' there '') (str ''prose'')
     = str ''<p>Hi</p><p>there</p>''"
proof -
  let ?lines = "[str ''roses'', sp 2, str ''<violets>'']"
  let ?pieces = "[str ''Hi'', str '' there '']"
  have l: "?lines \<noteq> [] \<and> list_all (\<lambda>line. 0x0A \<notin> set line) ?lines"
    by (simp add: str_def sp_def)
  have p: "?pieces \<noteq> [] \<and> list_all (\<lambda>piece. \<not> sublist (nl @ nl) piece) ?pieces
        \<and> list_all (\<lambda>piece. \<not> suffix nl piece) (butlast ?pieces)"
    by (simp add: nl_def str_def sublist_Cons_right suffix_def)
  have sp2: "sp 2 = [0x20, 0x20]"
    by (simp add: sp_def numeral_2_eq_2)
  have t: "str ''prose'' \<noteq> str ''poetry'' \<and> str ''prose'' \<noteq> str ''dialogue''"
    by (simp add: str_def)
  have e: "map (\<lambda>line. if list_all isWhiteSpace line then str ''<p>&nbsp;</p>''
                              else str ''<p>'' @ escapeHtml line @ str ''</p>'') ?lines
           = [str ''<p>roses</p>'', str ''<p>&nbsp;</p>'', str ''<p>&lt;violets&gt;</p>'']"
    by (simp add: str_def sp2 isWhiteSpace_def escapeHtml_def escape_unit_def)
  have f: "map (\<lambda>piece. str ''<p>'' @ escapeHtml piece @ str ''</p>'') ?pieces
           = [str ''<p>Hi</p>'', str ''<p> there </p>'']"
       "map (\<lambda>piece. str ''<p>'' @ escapeHtml (trim piece) @ str ''</p>'') ?pieces
           = [str ''<p>Hi</p>'', str ''<p>there</p>'']"
    by (simp_all add: str_def isWhiteSpace_def escapeHtml_def escape_unit_def trim_def)
  note T = formatContentForDisplay_by_type[of "[]" "str ''prose''" "[]" ?lines ?pieces]
  note T9 = T[THEN conjunct2, THEN conjunct2, THEN conjunct2, THEN conjunct2, THEN conjunct2,
      THEN conjunct2, THEN conjunct2, THEN conjunct2, THEN conjunct2]
  note poetry = T9[THEN conjunct1, THEN mp, OF l]
  note paragraphs = T9[THEN conjunct2, THEN mp, OF p]
  note dialogue = paragraphs[THEN conjunct1]
  note other = paragraphs[THEN conjunct2, THEN mp, OF t]
  have j: "join ?lines nl = str ''roses'' @ nl @ sp 2 @ nl @ str ''<violets>''"
    "join ?pieces (nl @ nl) = str ''Hi'' @ nl @ nl @ str '' there ''"
    by simp_all
  show ?thesis
    using poetry dialogue other unfolding e f j by (simp add: str_def)
qed

section \<open>Properties of the gated views\<close>

lemma fold_append_cards:
  "fold (\<lambda>item container. if P item then container else container @ [f item]) items acc
   = acc @ map f (filter (\<lambda>item. \<not> P item) items)"
  by (induction items arbitrary: acc) simp_all

lemma fold_append_all:
  "fold (\<lambda>item container. container @ [f item]) items acc = acc @ map f items"
  by (induction items arbitrary: acc) simp_all

text \<open>
  The dashboard shows a card for exactly the items that are not explicit, or for all of
  them when the gate is on; the browse grid shows a card for every item it is given.
\<close>

lemma displayRecentContent_cards:
  "recentContent (displayRecentContent p s items) =
     (case recentContent s of
        None \<Rightarrow> None
      | Some old \<Rightarrow> Some (map (createContentCard p)
          (filter (\<lambda>item. explicitContentEnabled s \<or> \<not> explicit_content item) items)))"
  by (simp add: displayRecentContent_def fold_append_cards split: option.splits)

lemma displayBrowseContent_cards:
  "browseContent (displayBrowseContent p s items) =
     (case browseContent s of
        None \<Rightarrow> None
      | Some old \<Rightarrow> Some (map (createContentCard p) items))"
  by (simp add: displayBrowseContent_def fold_append_all split: option.splits)

text \<open>
  Opening an explicit item while the gate is off leaves the content viewer as it was and
  shows the warning; confirming the warning then displays that item, the gate unchanged.
\<close>

lemma openContent_gated:
  "explicit_content item \<Longrightarrow> \<not> explicitContentEnabled s \<Longrightarrow>
   contentDisplay (openContent p s item) = contentDisplay s
   \<and> currentContent (openContent p s item) = Some item
   \<and> contentWarning (openContent p s item) = map_option (\<lambda>h. False) (contentWarning s)"
  by (auto simp: openContent_def showContentWarning_def Let_def split: option.splits)

lemma confirmAge_click_displays:
  "currentContent s = Some item \<Longrightarrow>
   confirmAge_click p s = displayContent p (hideContentWarning s) item True"
  by (simp add: confirmAge_click_def hideContentWarning_def Let_def split: option.splits)

text \<open>
  C1 at a failing input: the gate is off and the list handed to the browse grid holds an
  explicit item. \<open>displayBrowseContent\<close> (also when reached through
  \<open>loadBrowseContent\<close>) renders its card; \<open>displayRecentContent\<close> on the same list
  renders none.
\<close>

theorem displayBrowseContent_renders_explicit:
  "explicit_content nsfw_item \<and> \<not> explicitContentEnabled example_app
   \<and> browseContent (displayBrowseContent p example_app [nsfw_item])
       = Some [createContentCard p nsfw_item]
   \<and> browseContent (loadBrowseContent_then p (loadBrowseContent example_app) (Inr [nsfw_item]))
       = Some [createContentCard p nsfw_item]
   \<and> recentContent (displayRecentContent p example_app [nsfw_item]) = Some []"
  by (simp add: displayBrowseContent_cards displayRecentContent_cards
      loadBrowseContent_then_def loadBrowseContent_def)
     (simp add: example_app_def nsfw_item_def)

section \<open>Properties of the escaping\<close>

lemma escape_unit_no_angle: "0x3C \<notin> set (escape_unit c) \<and> 0x3E \<notin> set (escape_unit c)"
  by (simp add: escape_unit_def str_def)

text \<open>Escaped text holds neither \<open><\<close> nor \<open>>\<close>.\<close>

lemma escapeHtml_no_angle: "0x3C \<notin> set (escapeHtml s) \<and> 0x3E \<notin> set (escapeHtml s)"
  using escape_unit_no_angle by (induction s) (auto simp: escapeHtml_def)

lemma concat_split_at:
  "i < length xs \<Longrightarrow> concat xs = concat (take i xs) @ xs ! i @ concat (drop (Suc i) xs)"
  by (metis concat.simps(2) concat_append id_take_nth_drop)

lemma sublist_part: "i < length xs \<Longrightarrow> sublist (xs ! i) (concat xs)"
  using concat_split_at[of i xs] by (metis sublist_appendI)

lemma fullView_xss_tags:
  "fullView_parts p b xss_item ! 23 = str ''<span>Tags: <img src=x onerror=alert(1)></span>''"
  by (simp add: fullView_parts_def xss_item_def str_def)

lemma card_xss_tags:
  "card_tags [\<lparr> tag_id = 1, name = str ''<img src=x onerror=alert(1)>'' \<rparr>] =
     str ''<div class=\"card-tags\">''
     @ str ''<span class=\"tag\">&lt;img src=x onerror=alert(1)&gt;</span>''
     @ str ''</div>''"
  by (simp add: card_tags_def escapeHtml_def escape_unit_def str_def)

text \<open>The two card builders agree on every item that has a tag or no tag list at all.\<close>

lemma ContentCard_create_innerHTML:
  "tags item \<noteq> Some [] \<Longrightarrow>
   innerHTML (ContentCard_create p item) = innerHTML (createContentCard p item)"
  by (cases "tags item") (simp_all add: ContentCard_create_def createContentCard_def)

text \<open>
  C3 at a failing input: an item with a tag named \<open><img src=x onerror=alert(1)>\<close>. The
  full view, from \<open>displayContent\<close> and from \<open>ContentViewer.display\<close> alike, holds the
  tag name as markup, unescaped; the card of the same item holds it escaped.
\<close>

theorem fullView_tag_names_unescaped:
  "contentDisplay (displayContent p example_app xss_item False)
     = Some (fullView_template p bullet_main xss_item)
   \<and> contentDisplay (ContentViewer_display p example_app xss_item)
     = Some (fullView_template p bullet_viewer xss_item)
   \<and> sublist (str ''<span>Tags: <img src=x onerror=alert(1)></span>'')
        (fullView_template p bullet_main xss_item)
   \<and> sublist (str ''<span>Tags: <img src=x onerror=alert(1)></span>'')
        (fullView_template p bullet_viewer xss_item)
   \<and> sublist (str ''<span class=\"tag\">&lt;img src=x onerror=alert(1)&gt;</span>'')
        (innerHTML (createContentCard p xss_item))"
proof -
  have len: "23 < length (fullView_parts p b xss_item)" for b
    by (simp add: fullView_parts_def)
  have full: "sublist (str ''<span>Tags: <img src=x onerror=alert(1)></span>'')
                (fullView_template p b xss_item)" for b
    using sublist_part[OF len, of b] by (simp add: fullView_xss_tags fullView_template_def)
  have "sublist (card_parts p xss_item (card_tags (the (tags xss_item))) ! 42)
          (concat (card_parts p xss_item (card_tags (the (tags xss_item)))))"
    by (rule sublist_part) (simp add: card_parts_def)
  then have "sublist (card_tags (the (tags xss_item))) (innerHTML (createContentCard p xss_item))"
    by (simp add: card_parts_def createContentCard_def card_template_def xss_item_def)
  moreover have "sublist (str ''<span class=\"tag\">&lt;img src=x onerror=alert(1)&gt;</span>'')
      (card_tags (the (tags xss_item)))"
    unfolding xss_item_def by (simp only: item.simps option.sel card_xss_tags sublist_appendI)
  ultimately have card:
    "sublist (str ''<span class=\"tag\">&lt;img src=x onerror=alert(1)&gt;</span>'')
       (innerHTML (createContentCard p xss_item))"
    by (rule sublist_order.order.trans[rotated])
  have disp: "contentDisplay (displayContent p example_app xss_item False)
     = Some (fullView_template p bullet_main xss_item)"
    by (simp add: displayContent_def navigateToPage_def example_app_def Let_def str_def)
  have view: "contentDisplay (ContentViewer_display p example_app xss_item)
     = Some (fullView_template p bullet_viewer xss_item)"
    by (simp add: ContentViewer_display_def example_app_def)
  show ?thesis using full card disp view by simp
qed

section \<open>Properties of the quick search\<close>

lemma filter_fresh:
  "list_all (\<lambda>t. handle t < n) ts \<Longrightarrow> filter (\<lambda>t. handle t \<noteq> n) ts = ts"
  by (induction ts) auto

lemma find_fresh:
  "list_all (\<lambda>t. handle t < n) ts \<Longrightarrow>
   find (\<lambda>t. handle t = n) (ts @ [\<lparr>handle = n, due = d, callback = cb\<rparr>])
     = Some \<lparr>handle = n, due = d, callback = cb\<rparr>"
  by (induction ts) auto

lemma filter_zero:
  "list_all (\<lambda>t. 0 < handle t \<and> handle t < n) ts \<Longrightarrow> filter (\<lambda>t. handle t \<noteq> 0) ts = ts"
  by (induction ts) auto

lemma searchInput_input_state:
  "searchInput_input s v =
     s\<lparr>searchInput := v,
       timers := (case searchTimeout s of
                    None \<Rightarrow> timers s
                  | Some h \<Rightarrow> if h \<noteq> 0 then filter (\<lambda>t. handle t \<noteq> h) (timers s)
                              else timers s)
                 @ [\<lparr>handle = next_handle s, due = clock s + 300,
                      callback = SearchDebounce (trim v)\<rparr>],
       next_handle := Suc (next_handle s),
       searchTimeout := Some (next_handle s)\<rparr>"
  by (cases "searchTimeout s")
     (simp_all add: searchInput_input_def Let_def setTimeout_def clearTimeout_def)

text \<open>The guarantee on handles holds at the start and is kept by every step.\<close>

lemma timers_wf_input: "timers_wf s \<Longrightarrow> timers_wf (searchInput_input s v)"
  by (cases "searchTimeout s")
     (auto simp: timers_wf_def searchInput_input_state list_all_iff)

lemma timers_wf_blur: "timers_wf s \<Longrightarrow> timers_wf (searchInput_blur s)"
  by (auto simp: timers_wf_def searchInput_blur_def setTimeout_def list_all_iff)

lemma timers_wf_fire: "timers_wf s \<Longrightarrow> timers_wf (fire s h)"
  by (auto simp: timers_wf_def fire_def run_callback_def performSearch_def
      hideSearchResults_def list_all_iff split: option.splits callback.splits)

lemma timers_wf_example: "timers_wf example_app"
  by (simp add: timers_wf_def example_app_def)

text \<open>
  C8, as stated, on a document whose quick-search panel is showing: after the keystroke
  that leaves the one-character query \<open>a\<close>, the panel is still showing, with its markup;
  nothing was cleared immediately.
\<close>

theorem short_query_not_immediate_counterexample:
  "length (trim (str ''a'')) < 2
   \<and> searchResults (searchInput_input example_app (str ''a'')) =
       Some \<lparr> panel_innerHTML = str ''<div class=\"search-result-item\">No results found</div>'',
              hidden = False \<rparr>"
  by (simp add: searchInput_input_state example_app_def)
     (simp add: trim_def str_def isWhiteSpace_def)

text \<open>
  C8, amended. The keystroke itself issues no request and leaves the panel alone; it
  cancels the timer whose handle is stored in \<open>searchTimeout\<close> and queues a fresh one,
  due 300 ms later, for the trimmed query. When that timer fires, a search request for
  the trimmed query is issued if it has at least 2 code units; otherwise no request is
  issued and the panel gets class \<open>hidden\<close>, its markup kept.
\<close>

theorem quick_search_debounce:
  assumes "timers_wf s"
  shows "api_calls (searchInput_input s v) = api_calls s
       \<and> searchResults (searchInput_input s v) = searchResults s
       \<and> searchTimeout (searchInput_input s v) = Some (next_handle s)
       \<and> timers (searchInput_input s v) =
           filter (\<lambda>t. searchTimeout s \<noteq> Some (handle t)) (timers s)
           @ [\<lparr>handle = next_handle s, due = clock s + 300,
                callback = SearchDebounce (trim v)\<rparr>]
       \<and> api_calls (fire (searchInput_input s v) (next_handle s)) =
           (if 2 \<le> length (trim v)
            then api_calls s @ [Search (trim v) 10 (explicitContentEnabled s)]
            else api_calls s)
       \<and> searchResults (fire (searchInput_input s v) (next_handle s)) =
           (if 2 \<le> length (trim v) then searchResults s else hide_panel (searchResults s))
       \<and> clock s + 300 \<le> clock (fire (searchInput_input s v) (next_handle s))"
proof -
  let ?new = "\<lparr>handle = next_handle s, due = clock s + 300, callback = SearchDebounce (trim v)\<rparr>"
  let ?old = "filter (\<lambda>t. searchTimeout s \<noteq> Some (handle t)) (timers s)"
  from assms have wf: "list_all (\<lambda>t. 0 < handle t \<and> handle t < next_handle s) (timers s)"
    by (simp add: timers_wf_def)
  have tm: "(case searchTimeout s of
               None \<Rightarrow> timers s
             | Some h \<Rightarrow> if h \<noteq> 0 then filter (\<lambda>t. handle t \<noteq> h) (timers s) else timers s)
            = ?old"
  proof (cases "searchTimeout s")
    case None
    then show ?thesis by simp
  next
    case (Some h)
    have "filter (\<lambda>t. Some h \<noteq> Some (handle t)) (timers s)
          = filter (\<lambda>t. handle t \<noteq> h) (timers s)"
      by (rule filter_cong) auto
    moreover have "h = 0 \<Longrightarrow> filter (\<lambda>t. handle t \<noteq> h) (timers s) = timers s"
      using filter_zero[OF wf] by simp
    ultimately show ?thesis using Some by auto
  qed
  have st: "searchInput_input s v =
      s\<lparr>searchInput := v, timers := ?old @ [?new],
        next_handle := Suc (next_handle s), searchTimeout := Some (next_handle s)\<rparr>"
    by (simp add: searchInput_input_state tm)
  have lt: "list_all (\<lambda>t. handle t < next_handle s) ?old"
    using wf by (auto simp: list_all_iff)
  have fnd: "find (\<lambda>t. handle t = next_handle s) (?old @ [?new]) = Some ?new"
    by (rule find_fresh[OF lt])
  have t': "timers (searchInput_input s v) = ?old @ [?new]"
    and c': "clock (searchInput_input s v) = clock s"
    by (simp_all add: st)
  have ff: "filter (\<lambda>x. handle x \<noteq> next_handle s) ?old = ?old"
    by (rule filter_fresh[OF lt])
  have fire: "fire (searchInput_input s v) (next_handle s) =
     run_callback ((searchInput_input s v)\<lparr>timers := ?old, clock := clock s + 300\<rparr>)
       (SearchDebounce (trim v))"
    unfolding fire_def t' c' by (simp add: fnd ff del: find.simps filter_filter)
  show ?thesis
    unfolding fire
    by (simp add: st run_callback_def performSearch_def hideSearchResults_def hide_panel_def
        split: option.splits)
qed

lemma trim_lo: "trim (str '' lo '') = str ''lo''"
  by (simp add: trim_def str_def isWhiteSpace_def)

theorem quick_search_debounce_witness:
  "timers_wf (searchInput_input example_app (str ''l''))
   \<and> timers (searchInput_input (searchInput_input example_app (str ''l'')) (str '' lo ''))
       = [\<lparr>handle = 2, due = 300, callback = SearchDebounce (str ''lo'')\<rparr>]
   \<and> api_calls (fire (searchInput_input (searchInput_input example_app (str ''l'')) (str '' lo '')) 2)
       = [Search (str ''lo'') 10 False]"
proof -
  let ?s = "searchInput_input example_app (str ''l'')"
  have wf: "timers_wf ?s"
    by (rule timers_wf_input[OF timers_wf_example])
  have s: "next_handle ?s = 2" "searchTimeout ?s = Some 1" "clock ?s = 0" "api_calls ?s = []"
    "explicitContentEnabled ?s = False"
    "timers ?s = [\<lparr>handle = 1, due = 300, callback = SearchDebounce (trim (str ''l''))\<rparr>]"
    by (simp_all add: searchInput_input_state example_app_def)
  show ?thesis
    using wf quick_search_debounce[OF wf, of "str '' lo ''"]
    by (simp add: s trim_lo) (simp add: str_def)
qed

section \<open>Rendering twice\<close>

text \<open>Each display function, run again on the state it produced, changes nothing.\<close>

lemma displayRecentContent_idem:
  "displayRecentContent p (displayRecentContent p s items) items = displayRecentContent p s items"
  by (simp add: displayRecentContent_def split: option.splits)

lemma displayBrowseContent_idem:
  "displayBrowseContent p (displayBrowseContent p s items) items = displayBrowseContent p s items"
  by (simp add: displayBrowseContent_def split: option.splits)

lemma ContentViewer_display_idem:
  "ContentViewer_display p (ContentViewer_display p s item) item = ContentViewer_display p s item"
  by (simp add: ContentViewer_display_def split: option.splits)

lemma str_content_viewer:
  "str ''content-viewer'' \<noteq> str ''dashboard''" "str ''content-viewer'' \<noteq> str ''browse''"
  by (simp_all add: str_def)

lemma navigateToPage_content_viewer:
  "navigateToPage s (str ''content-viewer'') =
     (if str ''content-viewer'' \<notin> set (navLinks s) then s\<lparr>activeLinks := []\<rparr>
      else if str ''content-viewer'' \<in> set (pages s)
      then s\<lparr>activeLinks := [str ''content-viewer''], activePages := [str ''content-viewer''],
             currentPage := str ''content-viewer''\<rparr>
      else s\<lparr>activeLinks := [str ''content-viewer''], activePages := []\<rparr>)"
  by (simp add: navigateToPage_def Let_def str_content_viewer)

lemma navigateToPage_frame:
  "contentDisplay (navigateToPage s (str ''content-viewer'')) = contentDisplay s"
  "explicitContentEnabled (navigateToPage s (str ''content-viewer'')) = explicitContentEnabled s"
  "recentContent (navigateToPage s (str ''content-viewer'')) = recentContent s"
  "browseContent (navigateToPage s (str ''content-viewer'')) = browseContent s"
  by (simp_all add: navigateToPage_content_viewer)

lemma navigateToPage_idem:
  "navigateToPage (navigateToPage s (str ''content-viewer'')) (str ''content-viewer'')
   = navigateToPage s (str ''content-viewer'')"
  by (simp add: navigateToPage_content_viewer)

lemma navigateToPage_contentDisplay_update:
  "navigateToPage (s\<lparr>contentDisplay := x\<rparr>) (str ''content-viewer'')
   = (navigateToPage s (str ''content-viewer''))\<lparr>contentDisplay := x\<rparr>"
  by (simp add: navigateToPage_content_viewer)

lemma displayContent_idem:
  "displayContent p (displayContent p s item b) item b = displayContent p s item b"
proof (cases "contentDisplay s")
  case None
  then show ?thesis
    by (simp add: displayContent_def Let_def navigateToPage_frame navigateToPage_idem)
next
  case (Some old)
  then show ?thesis
    by (simp add: displayContent_def Let_def navigateToPage_frame navigateToPage_idem
        navigateToPage_contentDisplay_update)
qed

lemma displayContent_markup:
  "contentDisplay (displayContent p s item b) =
     (case contentDisplay s of None \<Rightarrow> None
      | Some old \<Rightarrow> Some (fullView_template p bullet_main item))"
  by (simp add: displayContent_def Let_def navigateToPage_frame split: option.splits)

lemma ContentViewer_display_markup:
  "contentDisplay (ContentViewer_display p s item) =
     (case contentDisplay s of None \<Rightarrow> None
      | Some old \<Rightarrow> Some (fullView_template p bullet_viewer item))"
  by (simp add: ContentViewer_display_def split: option.splits)

lemma displayContent_frame:
  "explicitContentEnabled (displayContent p s item b) = explicitContentEnabled s"
  "recentContent (displayContent p s item b) = recentContent s"
  "browseContent (displayContent p s item b) = browseContent s"
  by (simp_all add: displayContent_def Let_def navigateToPage_frame split: option.splits)

text \<open>
  C9: rendering is a function of the item and, for the dashboard, of the gate, and of
  nothing else in the application: in any two states with the same gate (and the same
  containers present) the cards of the dashboard and of the browse grid, and the markup
  of the full view, come out the same for the same items; and a display run a second
  time on the state the first run left gives that state back.
\<close>

theorem rendering_idempotent:
  assumes "explicitContentEnabled s' = explicitContentEnabled s"
    and "(recentContent s' = None) = (recentContent s = None)"
    and "(browseContent s' = None) = (browseContent s = None)"
    and "(contentDisplay s' = None) = (contentDisplay s = None)"
  shows "recentContent (displayRecentContent p s' items)
           = recentContent (displayRecentContent p s items)
       \<and> browseContent (displayBrowseContent p s' items)
           = browseContent (displayBrowseContent p s items)
       \<and> contentDisplay (displayContent p s' item b')
           = contentDisplay (displayContent p s item b)
       \<and> contentDisplay (ContentViewer_display p s' item)
           = contentDisplay (ContentViewer_display p s item)
       \<and> displayRecentContent p (displayRecentContent p s items) items
           = displayRecentContent p s items
       \<and> displayBrowseContent p (displayBrowseContent p s items) items
           = displayBrowseContent p s items
       \<and> displayContent p (displayContent p s item b) item b = displayContent p s item b
       \<and> ContentViewer_display p (ContentViewer_display p s item) item
           = ContentViewer_display p s item"
proof -
  have "recentContent (displayRecentContent p s' items)
           = recentContent (displayRecentContent p s items)"
    using assms(1,2) by (auto simp: displayRecentContent_cards split: option.splits)
  moreover have "browseContent (displayBrowseContent p s' items)
           = browseContent (displayBrowseContent p s items)"
    using assms(3) by (auto simp: displayBrowseContent_cards split: option.splits)
  moreover have "contentDisplay (displayContent p s' item b')
           = contentDisplay (displayContent p s item b)"
    using assms(4) by (auto simp: displayContent_markup split: option.splits)
  moreover have "contentDisplay (ContentViewer_display p s' item)
           = contentDisplay (ContentViewer_display p s item)"
    using assms(4) by (auto simp: ContentViewer_display_markup split: option.splits)
  ultimately show ?thesis
    by (simp only: displayRecentContent_idem displayBrowseContent_idem displayContent_idem
        ContentViewer_display_idem simp_thms)
qed

theorem rendering_idempotent_witness:
  "recentContent (displayRecentContent example_platform
       (displayContent example_platform example_app xss_item False) [nsfw_item, xss_item])
     = Some [createContentCard example_platform xss_item]
   \<and> recentContent (displayRecentContent example_platform example_app [nsfw_item, xss_item])
     = Some [createContentCard example_platform xss_item]
   \<and> contentDisplay (displayContent example_platform
       (displayContent example_platform example_app xss_item False) xss_item True)
     = Some (fullView_template example_platform bullet_main xss_item)"
proof -
  let ?s' = "displayContent example_platform example_app xss_item False"
  have h: "explicitContentEnabled ?s' = explicitContentEnabled example_app"
    "(recentContent ?s' = None) = (recentContent example_app = None)"
    "(browseContent ?s' = None) = (browseContent example_app = None)"
    "(contentDisplay ?s' = None) = (contentDisplay example_app = None)"
    by (simp_all add: displayContent_frame displayContent_markup example_app_def)
  have r: "recentContent (displayRecentContent example_platform example_app [nsfw_item, xss_item])
     = Some [createContentCard example_platform xss_item]"
    by (simp add: displayRecentContent_cards) (simp add: example_app_def nsfw_item_def xss_item_def)
  have d: "contentDisplay (displayContent example_platform example_app xss_item False)
     = Some (fullView_template example_platform bullet_main xss_item)"
    by (simp add: displayContent_markup) (simp add: example_app_def)
  show ?thesis
    using rendering_idempotent[OF h, of example_platform "[nsfw_item, xss_item]" xss_item True False] r d
    by simp
qed

end
